theory Spec2Isabelle
  imports Complex_Main "HOL-Library.Word"
begin

unbundle bit_operations_syntax

section \<open>Data model of dz-input-analyzer.cpp\<close>

text \<open>
  Conventions of the embedding.
  \<^item> \<open>int64_t\<close> timestamps (readings of \<open>now_ms()\<close>) are mathematical integers. The only
    64-bit arithmetic on them is \<open>t - lk\<close> and \<open>t_now_ms - 30000\<close>; signed overflow there is
    undefined in C++ and cannot happen for readings of the steady clock.
  \<^item> The narrowing cast \<open>(int)x\<close> of a 64-bit value keeps the low 32 bits (two's complement):
    \<open>to_int\<close>.
  \<^item> The atomic counters and flags are words of their width; \<open>fetch_add\<close> wraps.
  \<^item> A C array indexed by a row is a function from the index.
  \<^item> \<open>float\<close> and \<open>double\<close> values are real numbers; rounding is not modelled.
  \<^item> \<open>enum dz_row\<close> is used as an \<open>int\<close> throughout the source (array index, loop counter,
    the result \<open>-1\<close> of \<open>vkey_to_row\<close>), so rows are integers here as well.
\<close>

abbreviation (input) ROW_W :: int where "ROW_W \<equiv> 0"
abbreviation (input) ROW_S :: int where "ROW_S \<equiv> 1"
abbreviation (input) ROW_A :: int where "ROW_A \<equiv> 2"
abbreviation (input) ROW_D :: int where "ROW_D \<equiv> 3"
abbreviation (input) ROW_COUNT :: int where "ROW_COUNT \<equiv> 4"

definition to_int :: "int \<Rightarrow> int" where
  "to_int x = sint (word_of_int x :: 32 word)"

text \<open>The fields \<open>row\<close> of the two structs are named \<open>seg_row\<close> and \<open>click_row\<close>.\<close>

record dz_key_segment =
  seg_row :: int
  start_ms :: int
  end_ms :: int

record dz_click_event =
  click_row :: int
  time_ms :: int
  delta_ms :: int

record dz_input_state =
  key_down :: "int \<Rightarrow> 8 word"
  m1 :: "8 word"
  m2 :: "8 word"
  m3 :: "8 word"
  last_dx :: "32 word"
  last_dy :: "32 word"
  total_dx :: "64 word"
  total_dy :: "64 word"
  mouse_events :: "32 word"
  key_events :: "32 word"

text \<open>The handles \<open>solid\<close> and \<open>hwnd\<close> are left out: no modelled function reads them.\<close>

record dz_source_data =
  width :: "32 word"
  height :: "32 word"
  bg_alpha :: real
  row_enabled :: "int \<Rightarrow> bool"
  row_key_vkey :: "int \<Rightarrow> 16 word"
  bg_color :: "32 word"
  key_color :: "int \<Rightarrow> 32 word"
  st :: dz_input_state
  segments :: "dz_key_segment list"
  clicks :: "dz_click_event list"
  last_key_row :: int
  last_key_down_ms :: int
  last_key_valid :: int
  frame_counter :: "64 word"

subsection \<open>vkey_to_row\<close>

fun first_row :: "(int \<Rightarrow> 16 word) \<Rightarrow> 16 word \<Rightarrow> int list \<Rightarrow> int" where
  "first_row keys vkey [] = -1"
| "first_row keys vkey (i # rest) = (if keys i = vkey then i else first_row keys vkey rest)"

text \<open>The values of \<open>i\<close> in \<open>for (int i = 0; i < ROW_COUNT; i++)\<close>, in order.\<close>

definition all_rows :: "int list" where
  "all_rows = [ROW_W, ROW_S, ROW_A, ROW_D]"

definition vkey_to_row :: "dz_source_data \<Rightarrow> 16 word \<Rightarrow> int" where
  "vkey_to_row d vkey = first_row (row_key_vkey d) vkey all_rows"

subsection \<open>The raw input message\<close>

text \<open>
  What one \<open>WM_INPUT\<close> delivers: the results of the two calls of \<open>GetRawInputData\<close> (the
  return value and the size written through the pointer), the \<open>RAWINPUT\<close> read into the
  buffer, and the reading \<open>now_ms()\<close> gives during the call.
\<close>

datatype raw_data =
    RIM_TYPEMOUSE (lLastX: "32 word") (lLastY: "32 word") (usButtonFlags: "16 word")
  | RIM_TYPEKEYBOARD (Flags: "16 word") (VKey: "16 word")
  | RIM_TYPEHID

record wm_input =
  query_ret :: "32 word"
  query_size :: "32 word"
  read_ret :: "32 word"
  read_size :: "32 word"
  raw :: raw_data
  clock :: int

text \<open>Constants of the Windows headers.\<close>

abbreviation (input) RI_MOUSE_BUTTON_1_DOWN :: "16 word" where "RI_MOUSE_BUTTON_1_DOWN \<equiv> 0x0001"
abbreviation (input) RI_MOUSE_BUTTON_1_UP :: "16 word" where "RI_MOUSE_BUTTON_1_UP \<equiv> 0x0002"
abbreviation (input) RI_MOUSE_BUTTON_2_DOWN :: "16 word" where "RI_MOUSE_BUTTON_2_DOWN \<equiv> 0x0004"
abbreviation (input) RI_MOUSE_BUTTON_2_UP :: "16 word" where "RI_MOUSE_BUTTON_2_UP \<equiv> 0x0008"
abbreviation (input) RI_MOUSE_BUTTON_3_DOWN :: "16 word" where "RI_MOUSE_BUTTON_3_DOWN \<equiv> 0x0010"
abbreviation (input) RI_MOUSE_BUTTON_3_UP :: "16 word" where "RI_MOUSE_BUTTON_3_UP \<equiv> 0x0020"
abbreviation (input) RI_KEY_BREAK :: "16 word" where "RI_KEY_BREAK \<equiv> 1"

subsection \<open>dz_wndproc, mouse branch\<close>

definition button1_down :: "dz_source_data \<Rightarrow> int \<Rightarrow> dz_source_data" where
  "button1_down d t =
     (let d1 = d\<lparr>st := (st d)\<lparr>m1 := 1\<rparr>\<rparr>;
          valid = (last_key_valid d1 \<noteq> 0);
          row = (if valid then last_key_row d1 else ROW_D);
          delta = (if valid
                   then (let lk = last_key_down_ms d1; raw_delta = t - lk
                         in if raw_delta > 0 then to_int raw_delta else 0)
                   else 0)
      in d1\<lparr>clicks := clicks d1 @ [\<lparr>click_row = row, time_ms = t, delta_ms = delta\<rparr>]\<rparr>)"

definition set_m1 :: "8 word \<Rightarrow> dz_source_data \<Rightarrow> dz_source_data" where
  "set_m1 v d = d\<lparr>st := (st d)\<lparr>m1 := v\<rparr>\<rparr>"

definition set_m2 :: "8 word \<Rightarrow> dz_source_data \<Rightarrow> dz_source_data" where
  "set_m2 v d = d\<lparr>st := (st d)\<lparr>m2 := v\<rparr>\<rparr>"

definition set_m3 :: "8 word \<Rightarrow> dz_source_data \<Rightarrow> dz_source_data" where
  "set_m3 v d = d\<lparr>st := (st d)\<lparr>m3 := v\<rparr>\<rparr>"

definition mouse_motion :: "32 word \<Rightarrow> 32 word \<Rightarrow> dz_source_data \<Rightarrow> dz_source_data" where
  "mouse_motion dx dy d =
     d\<lparr>st := (st d)\<lparr>last_dx := dx, last_dy := dy,
                      total_dx := total_dx (st d) + scast dx,
                      total_dy := total_dy (st d) + scast dy,
                      mouse_events := mouse_events (st d) + 1\<rparr>\<rparr>"

definition wndproc_mouse :: "dz_source_data \<Rightarrow> 32 word \<Rightarrow> 32 word \<Rightarrow> 16 word \<Rightarrow> int \<Rightarrow> dz_source_data" where
  "wndproc_mouse d x y bf t =
     (let d0 = mouse_motion x y d;
          d1 = (if bf AND RI_MOUSE_BUTTON_1_DOWN \<noteq> 0 then button1_down d0 t else d0);
          d2 = (if bf AND RI_MOUSE_BUTTON_1_UP \<noteq> 0 then set_m1 0 d1 else d1);
          d3 = (if bf AND RI_MOUSE_BUTTON_2_DOWN \<noteq> 0 then set_m2 1 d2 else d2);
          d4 = (if bf AND RI_MOUSE_BUTTON_2_UP \<noteq> 0 then set_m2 0 d3 else d3);
          d5 = (if bf AND RI_MOUSE_BUTTON_3_DOWN \<noteq> 0 then set_m3 1 d4 else d4)
      in if bf AND RI_MOUSE_BUTTON_3_UP \<noteq> 0 then set_m3 0 d5 else d5)"

subsection \<open>dz_wndproc, keyboard branch\<close>

text \<open>
  Both scans of the deque run from \<open>rbegin()\<close> to \<open>rend()\<close>: the functions below walk the
  reversed list, newest segment first, and stop at the first open segment of the row.
\<close>

fun scan_open :: "int \<Rightarrow> dz_key_segment list \<Rightarrow> bool" where
  "scan_open row [] = False"
| "scan_open row (s # older) =
     (if seg_row s = row \<and> end_ms s < 0 then True else scan_open row older)"

definition has_open :: "int \<Rightarrow> dz_key_segment list \<Rightarrow> bool" where
  "has_open row segs = scan_open row (rev segs)"

fun scan_close :: "int \<Rightarrow> int \<Rightarrow> dz_key_segment list \<Rightarrow> dz_key_segment list" where
  "scan_close row t [] = []"
| "scan_close row t (s # older) =
     (if seg_row s = row \<and> end_ms s < 0 then s\<lparr>end_ms := t\<rparr> # older
      else s # scan_close row t older)"

definition close_latest :: "int \<Rightarrow> int \<Rightarrow> dz_key_segment list \<Rightarrow> dz_key_segment list" where
  "close_latest row t segs = rev (scan_close row t (rev segs))"

definition start_segment :: "int \<Rightarrow> int \<Rightarrow> dz_source_data \<Rightarrow> dz_source_data" where
  "start_segment row t d =
     d\<lparr>segments := segments d @ [\<lparr>seg_row = row, start_ms = t, end_ms = -1\<rparr>],
       last_key_row := row, last_key_down_ms := t, last_key_valid := 1\<rparr>"

text \<open>The block \<open>if (!is_break) {...}\<close> of the plugin and of its English copy.\<close>

definition key_press :: "bool \<Rightarrow> int \<Rightarrow> int \<Rightarrow> dz_source_data \<Rightarrow> dz_source_data" where
  "key_press was_down row t d =
     (let already = was_down;
          has_open = has_open row (segments d)
      in if \<not> already \<and> \<not> has_open then start_segment row t d else d)"

text \<open>The same block of the backup copy, which tests \<open>has_open\<close> alone.\<close>

definition key_press_backup :: "int \<Rightarrow> int \<Rightarrow> dz_source_data \<Rightarrow> dz_source_data" where
  "key_press_backup row t d =
     (let has_open = has_open row (segments d)
      in if \<not> has_open then start_segment row t d else d)"

definition key_release :: "int \<Rightarrow> int \<Rightarrow> dz_source_data \<Rightarrow> dz_source_data" where
  "key_release row t d = d\<lparr>segments := close_latest row t (segments d)\<rparr>"

definition set_key_down :: "int \<Rightarrow> 8 word \<Rightarrow> dz_source_data \<Rightarrow> dz_source_data" where
  "set_key_down row v d = d\<lparr>st := (st d)\<lparr>key_down := (key_down (st d))(row := v)\<rparr>\<rparr>"

definition count_key_event :: "dz_source_data \<Rightarrow> dz_source_data" where
  "count_key_event d = d\<lparr>st := (st d)\<lparr>key_events := key_events (st d) + 1\<rparr>\<rparr>"

definition wndproc_keyboard :: "dz_source_data \<Rightarrow> 16 word \<Rightarrow> 16 word \<Rightarrow> int \<Rightarrow> dz_source_data" where
  "wndproc_keyboard d flags vkey t =
     (let is_break = (flags AND RI_KEY_BREAK \<noteq> 0);
          row = vkey_to_row d vkey;
          was_down = (row \<noteq> -1 \<and> key_down (st d) row \<noteq> 0);
          d1 = (if row \<noteq> -1 then set_key_down row (if is_break then 0 else 1) d else d);
          d2 = (if row \<noteq> -1
                then (if \<not> is_break then key_press was_down row t d1 else key_release row t d1)
                else d1)
      in count_key_event d2)"

text \<open>
  The keyboard branch of the backup copy. Its \<open>vkey_to_row\<close> is fixed to W, S, A, D, and its
  four flags \<open>key_w\<close>, \<open>key_s\<close>, \<open>key_a\<close>, \<open>key_d\<close> are kept here in \<open>key_down\<close> at the rows
  W, S, A, D, so that both copies run on the same record.
\<close>

definition vkey_to_row_backup :: "16 word \<Rightarrow> int" where
  "vkey_to_row_backup vkey =
     (if vkey = 87 then ROW_W else if vkey = 83 then ROW_S
      else if vkey = 65 then ROW_A else if vkey = 68 then ROW_D else -1)"

definition set_key_backup :: "16 word \<Rightarrow> 8 word \<Rightarrow> dz_source_data \<Rightarrow> dz_source_data" where
  "set_key_backup vkey v d =
     (if vkey = 87 then set_key_down ROW_W v d
      else if vkey = 65 then set_key_down ROW_A v d
      else if vkey = 83 then set_key_down ROW_S v d
      else if vkey = 68 then set_key_down ROW_D v d
      else d)"

definition wndproc_keyboard_backup :: "dz_source_data \<Rightarrow> 16 word \<Rightarrow> 16 word \<Rightarrow> int \<Rightarrow> dz_source_data" where
  "wndproc_keyboard_backup d flags vkey t =
     (let is_break = (flags AND RI_KEY_BREAK \<noteq> 0);
          d1 = set_key_backup vkey (if is_break then 0 else 1) d;
          row = vkey_to_row_backup vkey;
          d2 = (if row \<noteq> -1
                then (if \<not> is_break then key_press_backup row t d1 else key_release row t d1)
                else d1)
      in count_key_event d2)"

subsection \<open>dz_wndproc, case WM_INPUT\<close>

definition dz_wndproc :: "dz_source_data \<Rightarrow> wm_input \<Rightarrow> dz_source_data" where
  "dz_wndproc d m =
     (if query_ret m \<noteq> 0 then d
      else if query_size m = 0 \<or> query_size m > 2 ^ 16 then d
      else if query_size m > 2 ^ 13 then d
      else if read_ret m \<noteq> read_size m then d
      else (case raw m of
              RIM_TYPEMOUSE x y bf \<Rightarrow> wndproc_mouse d x y bf (clock m)
            | RIM_TYPEKEYBOARD flags vkey \<Rightarrow> wndproc_keyboard d flags vkey (clock m)
            | RIM_TYPEHID \<Rightarrow> d))"

subsection \<open>Creation and settings update\<close>

text \<open>The default member initialisers of \<open>dz_input_state\<close> and \<open>dz_source_data\<close>.\<close>

definition new_input_state :: dz_input_state where
  "new_input_state =
     \<lparr>key_down = (\<lambda>i. 0), m1 = 0, m2 = 0, m3 = 0, last_dx = 0, last_dy = 0,
      total_dx = 0, total_dy = 0, mouse_events = 0, key_events = 0\<rparr>"

definition new_source_data :: dz_source_data where
  "new_source_data =
     \<lparr>width = 1500, height = 520, bg_alpha = 55 / 100,
      row_enabled = (\<lambda>i. True),
      row_key_vkey = (\<lambda>i. 0)(ROW_W := 87, ROW_S := 83, ROW_A := 65, ROW_D := 68),
      bg_color = 0,
      key_color = (\<lambda>i. 0)(ROW_W := 0x005dc8f3, ROW_S := 0x009cff9c,
                           ROW_A := 0x003f3fcf, ROW_D := 0x00c8a00a),
      st = new_input_state, segments = [], clicks = [],
      last_key_row = ROW_D, last_key_down_ms = 0, last_key_valid = 0,
      frame_counter = 0\<rparr>"

text \<open>The settings object of the host, read through its three getters.\<close>

record obs_data =
  obs_data_get_int :: "string \<Rightarrow> int"
  obs_data_get_double :: "string \<Rightarrow> real"
  obs_data_get_bool :: "string \<Rightarrow> bool"

definition dz_obter_vkey :: "obs_data \<Rightarrow> string \<Rightarrow> 16 word \<Rightarrow> 16 word" where
  "dz_obter_vkey settings nome padrao =
     (let valor = to_int (obs_data_get_int settings nome)
      in if valor \<noteq> 0 then word_of_int valor else padrao)"

definition clamp :: "real \<Rightarrow> real \<Rightarrow> real \<Rightarrow> real" where
  "clamp v lo hi = (if v < lo then lo else if hi < v then hi else v)"

text \<open>The assignments that \<open>dz_source_create\<close> and \<open>dz_source_update\<close> share.\<close>

definition read_settings :: "obs_data \<Rightarrow> dz_source_data \<Rightarrow> dz_source_data" where
  "read_settings settings d =
     (let w = to_int (obs_data_get_int settings ''width'');
          h = to_int (obs_data_get_int settings ''height'');
          d1 = (if w > 0 then d\<lparr>width := word_of_int w\<rparr> else d);
          d2 = (if h > 0 then d1\<lparr>height := word_of_int h\<rparr> else d1)
      in d2\<lparr>bg_alpha := clamp (obs_data_get_double settings ''bg_alpha'') 0 1,
            bg_color := word_of_int (obs_data_get_int settings ''bg_color''),
            key_color := (key_color d2)
              (ROW_W := word_of_int (obs_data_get_int settings ''color_w''),
               ROW_S := word_of_int (obs_data_get_int settings ''color_s''),
               ROW_A := word_of_int (obs_data_get_int settings ''color_a''),
               ROW_D := word_of_int (obs_data_get_int settings ''color_d'')),
            row_key_vkey := (row_key_vkey d2)
              (ROW_W := dz_obter_vkey settings ''row_w_key'' 87,
               ROW_S := dz_obter_vkey settings ''row_s_key'' 83,
               ROW_A := dz_obter_vkey settings ''row_a_key'' 65,
               ROW_D := dz_obter_vkey settings ''row_d_key'' 68),
            row_enabled := (row_enabled d2)
              (ROW_W := obs_data_get_bool settings ''row_w_enabled'',
               ROW_S := obs_data_get_bool settings ''row_s_enabled'',
               ROW_A := obs_data_get_bool settings ''row_a_enabled'',
               ROW_D := obs_data_get_bool settings ''row_d_enabled'')\<rparr>)"

definition dz_source_create :: "obs_data \<Rightarrow> dz_source_data" where
  "dz_source_create settings = read_settings settings new_source_data"

definition dz_source_update :: "dz_source_data \<Rightarrow> obs_data \<Rightarrow> dz_source_data" where
  "dz_source_update d settings =
     foldl (\<lambda>d' i. set_key_down i 0 d') (read_settings settings d) all_rows"

subsection \<open>dz_cleanup_history and the render pass\<close>

fun drop_old_clicks :: "int \<Rightarrow> dz_click_event list \<Rightarrow> dz_click_event list" where
  "drop_old_clicks keep_after [] = []"
| "drop_old_clicks keep_after (c # rest) =
     (if time_ms c < keep_after then drop_old_clicks keep_after rest else c # rest)"

fun drop_old_segments :: "int \<Rightarrow> int \<Rightarrow> dz_key_segment list \<Rightarrow> dz_key_segment list" where
  "drop_old_segments t_now_ms keep_after [] = []"
| "drop_old_segments t_now_ms keep_after (s0 # rest) =
     (let end0 = (if end_ms s0 < 0 then t_now_ms else end_ms s0)
      in if end0 \<ge> keep_after then s0 # rest
         else drop_old_segments t_now_ms keep_after rest)"

definition dz_cleanup_history :: "dz_source_data \<Rightarrow> int \<Rightarrow> dz_source_data" where
  "dz_cleanup_history d t_now_ms =
     (let keep_after = t_now_ms - 30000
      in d\<lparr>clicks := drop_old_clicks keep_after (clicks d),
           segments := drop_old_segments t_now_ms keep_after (segments d)\<rparr>)"

text \<open>
  The state changes of \<open>dz_source_render\<close> when the solid effect is there: the frame
  counter, then (after the drawing, which changes no field) the cleanup at \<open>tNow\<close>.
  Without the effect the function returns at once.
\<close>

definition dz_source_render :: "dz_source_data \<Rightarrow> bool \<Rightarrow> int \<Rightarrow> dz_source_data" where
  "dz_source_render d solid tNow =
     (if \<not> solid then d
      else dz_cleanup_history (d\<lparr>frame_counter := frame_counter d + 1\<rparr>) tNow)"

subsection \<open>The window mapper of the render pass\<close>




subsection \<open>Runs of the source\<close>

text \<open>
  The calls the host and the operating system make on one source after its creation:
  a raw input message, a render pass at a clock reading, a settings update.
\<close>

datatype dz_call = Input wm_input | Render bool int | Update obs_data

fun dz_step :: "dz_source_data \<Rightarrow> dz_call \<Rightarrow> dz_source_data" where
  "dz_step d (Input m) = dz_wndproc d m"
| "dz_step d (Render solid tNow) = dz_source_render d solid tNow"
| "dz_step d (Update settings) = dz_source_update d settings"

definition dz_run :: "obs_data \<Rightarrow> dz_call list \<Rightarrow> dz_source_data" where
  "dz_run settings calls = foldl dz_step (dz_source_create settings) calls"

text \<open>Well-formed messages, for the examples: a key transition and a mouse button report.\<close>

definition key_msg :: "16 word \<Rightarrow> 16 word \<Rightarrow> int \<Rightarrow> wm_input" where
  "key_msg flags vkey t =
     \<lparr>query_ret = 0, query_size = 40, read_ret = 40, read_size = 40,
      raw = RIM_TYPEKEYBOARD flags vkey, clock = t\<rparr>"

definition mouse_msg :: "16 word \<Rightarrow> int \<Rightarrow> wm_input" where
  "mouse_msg bf t =
     \<lparr>query_ret = 0, query_size = 48, read_ret = 48, read_size = 48,
      raw = RIM_TYPEMOUSE 0 0 bf, clock = t\<rparr>"

subsection \<open>Vocabulary of the statements\<close>

text \<open>A segment of the row whose end is still the sentinel.\<close>

definition open_for :: "int \<Rightarrow> dz_key_segment \<Rightarrow> bool" where
  "open_for row s = (seg_row s = row \<and> end_ms s < 0)"

text \<open>A message that passes the four checks at the head of \<open>case WM_INPUT\<close>.\<close>

definition accepted :: "wm_input \<Rightarrow> bool" where
  "accepted m = (query_ret m = 0 \<and> query_size m \<noteq> 0 \<and> query_size m \<le> 8192
                 \<and> read_ret m = read_size m)"




text \<open>The settings \<open>dz_source_defaults\<close> registers; a name never set reads as 0 or false.\<close>

definition dz_source_defaults :: obs_data where
  "dz_source_defaults =
     \<lparr>obs_data_get_int = (\<lambda>name.
        if name = ''width'' then 1500 else if name = ''height'' then 520
        else if name = ''bg_color'' then 0x000000
        else if name = ''color_w'' then 0x005dc8f3
        else if name = ''color_s'' then 0x009cff9c
        else if name = ''color_a'' then 0x003f3fcf
        else if name = ''color_d'' then 0x00c8a00a
        else if name = ''row_w_key'' then 87
        else if name = ''row_s_key'' then 83
        else if name = ''row_a_key'' then 65
        else if name = ''row_d_key'' then 68
        else 0),
      obs_data_get_double = (\<lambda>name. if name = ''bg_alpha'' then 55 / 100 else 0),
      obs_data_get_bool = (\<lambda>name. name = ''row_w_enabled'' \<or> name = ''row_s_enabled''
                                 \<or> name = ''row_a_enabled'' \<or> name = ''row_d_enabled'')\<rparr>"

text \<open>
  The test of the segment loop of \<open>dz_cleanup_history\<close>: the effective end of the segment
  (its end, or \<open>t_now_ms\<close> while it is open) is before \<open>keep_after\<close>.
\<close>

definition seg_expired :: "int \<Rightarrow> int \<Rightarrow> dz_key_segment \<Rightarrow> bool" where
  "seg_expired now ka s = ((if end_ms s < 0 then now else end_ms s) < ka)"


text \<open>The two invariants of a run: the segments, and the down flags against the segments.\<close>

definition one_open_per_row :: "dz_source_data \<Rightarrow> bool" where
  "one_open_per_row d = (\<forall>row. length (filter (open_for row) (segments d)) \<le> 1)"

definition flags_have_open :: "dz_source_data \<Rightarrow> bool" where
  "flags_have_open d = (\<forall>row. key_down (st d) row \<noteq> 0 \<longrightarrow> has_open row (segments d))"

section \<open>Basic facts\<close>

subsection \<open>The two scans\<close>

lemma scan_open_iff: "scan_open row xs \<longleftrightarrow> (\<exists>s\<in>set xs. open_for row s)"
  by (induction xs) (auto simp: open_for_def)

lemma has_open_iff: "has_open row segs \<longleftrightarrow> (\<exists>s\<in>set segs. open_for row s)"
  by (simp add: has_open_def scan_open_iff)

lemma scan_close_none:
  "\<forall>s\<in>set xs. \<not> open_for row s \<Longrightarrow> scan_close row t xs = xs"
  by (induction xs) (auto simp: open_for_def)

lemma scan_close_some:
  "\<exists>s\<in>set xs. open_for row s \<Longrightarrow>
   \<exists>newer s older. xs = newer @ s # older \<and> (\<forall>x\<in>set newer. \<not> open_for row x)
      \<and> open_for row s \<and> scan_close row t xs = newer @ s\<lparr>end_ms := t\<rparr> # older"
proof (induction xs)
  case Nil
  then show ?case by simp
next
  case (Cons a xs)
  show ?case
  proof (cases "open_for row a")
    case True
    then have "a # xs = [] @ a # xs \<and> (\<forall>x\<in>set []. \<not> open_for row x) \<and> open_for row a
       \<and> scan_close row t (a # xs) = [] @ a\<lparr>end_ms := t\<rparr> # xs"
      by (simp add: open_for_def)
    then show ?thesis by blast
  next
    case False
    with Cons.prems have "\<exists>s\<in>set xs. open_for row s" by auto
    from Cons.IH [OF this] obtain newer s older where
      h: "xs = newer @ s # older" "\<forall>x\<in>set newer. \<not> open_for row x" "open_for row s"
         "scan_close row t xs = newer @ s\<lparr>end_ms := t\<rparr> # older"
      by blast
    from False h have "a # xs = (a # newer) @ s # older
        \<and> (\<forall>x\<in>set (a # newer). \<not> open_for row x) \<and> open_for row s
        \<and> scan_close row t (a # xs) = (a # newer) @ s\<lparr>end_ms := t\<rparr> # older"
      by (auto simp: open_for_def)
    then show ?thesis by blast
  qed
qed

lemma close_latest_none:
  "\<forall>s\<in>set segs. \<not> open_for row s \<Longrightarrow> close_latest row t segs = segs"
  by (simp add: close_latest_def scan_close_none)

lemma close_latest_some:
  assumes "\<exists>s\<in>set segs. open_for row s"
  shows "\<exists>older s newer. segs = older @ s # newer \<and> (\<forall>x\<in>set newer. \<not> open_for row x)
      \<and> open_for row s \<and> close_latest row t segs = older @ s\<lparr>end_ms := t\<rparr> # newer"
proof -
  from assms have "\<exists>s\<in>set (rev segs). open_for row s" by simp
  from scan_close_some [OF this, of t] obtain newer s older where
    h: "rev segs = newer @ s # older" "\<forall>x\<in>set newer. \<not> open_for row x" "open_for row s"
       "scan_close row t (rev segs) = newer @ s\<lparr>end_ms := t\<rparr> # older"
    by blast
  from h(1) have "rev (rev segs) = rev (newer @ s # older)" by simp
  then have "segs = rev older @ s # rev newer" by simp
  moreover from h(2) have "\<forall>x\<in>set (rev newer). \<not> open_for row x" by simp
  moreover from h(4) have "close_latest row t segs = rev older @ s\<lparr>end_ms := t\<rparr> # rev newer"
    by (simp add: close_latest_def)
  ultimately show ?thesis using h(3) by blast
qed

lemma wndproc_rejected: "\<not> accepted m \<Longrightarrow> dz_wndproc d m = d"
  by (auto simp: dz_wndproc_def accepted_def)

lemma wndproc_accepted:
  "accepted m \<Longrightarrow> dz_wndproc d m =
     (case raw m of
        RIM_TYPEMOUSE x y bf \<Rightarrow> wndproc_mouse d x y bf (clock m)
      | RIM_TYPEKEYBOARD flags vkey \<Rightarrow> wndproc_keyboard d flags vkey (clock m)
      | RIM_TYPEHID \<Rightarrow> d)"
proof -
  assume a: "accepted m"
  have "(8192 :: 32 word) \<le> 2 ^ 16" by simp
  with a have "\<not> query_size m > 2 ^ 16" unfolding accepted_def
    by (metis leD order_trans)
  with a show ?thesis by (auto simp: dz_wndproc_def accepted_def)
qed

subsection \<open>Frames\<close>

lemma set_key_down_frame [simp]:
  "segments (set_key_down i v d) = segments d"
  "clicks (set_key_down i v d) = clicks d"
  "last_key_row (set_key_down i v d) = last_key_row d"
  "last_key_down_ms (set_key_down i v d) = last_key_down_ms d"
  "last_key_valid (set_key_down i v d) = last_key_valid d"
  "row_key_vkey (set_key_down i v d) = row_key_vkey d"
  "key_down (st (set_key_down i v d)) = (key_down (st d))(i := v)"
  by (simp_all add: set_key_down_def)

lemma count_key_event_frame [simp]:
  "segments (count_key_event d) = segments d"
  "clicks (count_key_event d) = clicks d"
  "last_key_row (count_key_event d) = last_key_row d"
  "last_key_down_ms (count_key_event d) = last_key_down_ms d"
  "last_key_valid (count_key_event d) = last_key_valid d"
  "row_key_vkey (count_key_event d) = row_key_vkey d"
  "key_down (st (count_key_event d)) = key_down (st d)"
  by (simp_all add: count_key_event_def)

lemma read_settings_frame [simp]:
  "segments (read_settings s d) = segments d"
  "clicks (read_settings s d) = clicks d"
  "last_key_row (read_settings s d) = last_key_row d"
  "last_key_down_ms (read_settings s d) = last_key_down_ms d"
  "last_key_valid (read_settings s d) = last_key_valid d"
  "st (read_settings s d) = st d"
  by (simp_all add: read_settings_def Let_def)

lemma wndproc_mouse_frame [simp]:
  "segments (wndproc_mouse d x y bf t) = segments d"
  "last_key_row (wndproc_mouse d x y bf t) = last_key_row d"
  "last_key_down_ms (wndproc_mouse d x y bf t) = last_key_down_ms d"
  "last_key_valid (wndproc_mouse d x y bf t) = last_key_valid d"
  "row_key_vkey (wndproc_mouse d x y bf t) = row_key_vkey d"
  "key_down (st (wndproc_mouse d x y bf t)) = key_down (st d)"
  by (simp_all add: wndproc_mouse_def mouse_motion_def button1_down_def set_m1_def set_m2_def
        set_m3_def Let_def)

lemma wndproc_mouse_clicks:
  "clicks (wndproc_mouse d x y bf t) =
     (if bf AND RI_MOUSE_BUTTON_1_DOWN \<noteq> 0
      then clicks d @
        [\<lparr>click_row = (if last_key_valid d \<noteq> 0 then last_key_row d else ROW_D),
          time_ms = t,
          delta_ms = (if last_key_valid d \<noteq> 0 \<and> t - last_key_down_ms d > 0
                      then to_int (t - last_key_down_ms d) else 0)\<rparr>]
      else clicks d)"
  by (simp add: wndproc_mouse_def mouse_motion_def button1_down_def set_m1_def set_m2_def
        set_m3_def Let_def)

lemma to_int_id:
  assumes "- (2 ^ 31) \<le> x" "x < 2 ^ 31"
  shows "to_int x = x"
proof -
  have "to_int x = signed_take_bit 31 x"
    by (simp add: to_int_def signed_of_int)
  also have "\<dots> = x"
    using assms by (rule signed_take_bit_int_eq_self)
  finally show ?thesis .
qed

lemma wndproc_keyboard_unmapped:
  "vkey_to_row d vkey = -1 \<Longrightarrow> wndproc_keyboard d flags vkey t = count_key_event d"
  by (simp add: wndproc_keyboard_def Let_def)

lemma wndproc_keyboard_press:
  "vkey_to_row d vkey = row \<Longrightarrow> row \<noteq> -1 \<Longrightarrow> flags AND RI_KEY_BREAK = 0 \<Longrightarrow>
   wndproc_keyboard d flags vkey t =
     count_key_event (key_press (key_down (st d) row \<noteq> 0) row t (set_key_down row 1 d))"
  by (simp add: wndproc_keyboard_def Let_def)

lemma wndproc_keyboard_release:
  "vkey_to_row d vkey = row \<Longrightarrow> row \<noteq> -1 \<Longrightarrow> flags AND RI_KEY_BREAK \<noteq> 0 \<Longrightarrow>
   wndproc_keyboard d flags vkey t =
     count_key_event (key_release row t (set_key_down row 0 d))"
  by (simp add: wndproc_keyboard_def Let_def)

lemma wndproc_row_key_vkey [simp]: "row_key_vkey (dz_wndproc d m) = row_key_vkey d"
  by (cases "accepted m")
     (auto simp: wndproc_rejected wndproc_accepted wndproc_keyboard_def Let_def key_press_def
        key_release_def start_segment_def split: raw_data.splits)

lemma vkey_to_row_cong: "row_key_vkey d' = row_key_vkey d \<Longrightarrow> vkey_to_row d' vkey = vkey_to_row d vkey"
  by (simp add: vkey_to_row_def)

subsection \<open>Unfolding a run on concrete calls\<close>

lemmas run_defs = dz_run_def dz_source_create_def read_settings_def dz_source_defaults_def
  dz_obter_vkey_def to_int_def clamp_def
  dz_wndproc_def wndproc_keyboard_def wndproc_mouse_def key_msg_def mouse_msg_def
  vkey_to_row_def all_rows_def set_key_down_def key_press_def key_release_def has_open_def
  close_latest_def start_segment_def count_key_event_def button1_down_def mouse_motion_def
  set_m1_def set_m2_def set_m3_def new_source_data_def new_input_state_def
  dz_source_render_def dz_cleanup_history_def accepted_def Let_def

section \<open>Payload size check\<close>

text \<open>
  C7. A raw input payload whose reported size is zero or larger than the buffer of 8192
  bytes leaves the whole source data as it was: no segment, click, cursor, flag or counter
  changes. The handler has no error result; it returns what the default window procedure
  returns in every case.
\<close>

theorem wndproc_rejects_bad_size:
  "query_size m = 0 \<or> query_size m > 8192 \<Longrightarrow> dz_wndproc d m = d"
  by (auto simp: dz_wndproc_def)

theorem wndproc_rejects_bad_size_witness:
  "dz_wndproc new_source_data ((key_msg 0 87 5)\<lparr>query_size := 8193\<rparr>) = new_source_data
   \<and> dz_wndproc new_source_data ((mouse_msg 1 5)\<lparr>query_size := 0\<rparr>) = new_source_data"
  using wndproc_rejects_bad_size [of "(key_msg 0 87 5)\<lparr>query_size := 8193\<rparr>" new_source_data]
        wndproc_rejects_bad_size [of "(mouse_msg 1 5)\<lparr>query_size := 0\<rparr>" new_source_data]
  by (simp add: key_msg_def mouse_msg_def)

section \<open>Click events\<close>

text \<open>
  What a primary-button-down report appends, for every state and accepted message: one
  click at the clock reading, with the cursor's row and the clamped difference when the
  cursor is valid and the difference fits 32 bits, and with row D and delta 0 when no
  press was ever accepted.
\<close>

lemma button1_down_appends_click:
  assumes "accepted m" and "raw m = RIM_TYPEMOUSE x y bf" and "bf AND RI_MOUSE_BUTTON_1_DOWN \<noteq> 0"
  shows "\<exists>c. clicks (dz_wndproc d m) = clicks d @ [c] \<and> time_ms c = clock m
     \<and> (last_key_valid d \<noteq> 0 \<longrightarrow> click_row c = last_key_row d)
     \<and> (last_key_valid d \<noteq> 0 \<and> clock m - last_key_down_ms d < 2 ^ 31 \<longrightarrow>
           delta_ms c = max 0 (clock m - last_key_down_ms d))
     \<and> (last_key_valid d = 0 \<longrightarrow> click_row c = ROW_D \<and> delta_ms c = 0)"
  using assms by (auto simp: wndproc_accepted wndproc_mouse_clicks to_int_id)

text \<open>
  C1. For every primary-mouse-button-down event exactly one click is appended; with a valid
  cursor it carries the cursor's row and delta = max(0, click_time - last_key_down_time),
  otherwise row D and delta 0. The source field is documented as \<open>delta_ms >= 0\<close>, and the
  handler stores \<open>(int)raw_delta\<close>: evaluated on a fresh source with the W key pressed at
  0 ms and the click 2147483648 ms later, the cursor is valid, the difference is
  2147483648 and the click stored has delta -2147483648.
\<close>

theorem click_delta_wraps_negative:
  "last_key_valid (dz_run dz_source_defaults [Input (key_msg 0 87 0)]) = 1
   \<and> last_key_down_ms (dz_run dz_source_defaults [Input (key_msg 0 87 0)]) = 0
   \<and> clicks (dz_run dz_source_defaults [Input (key_msg 0 87 0), Input (mouse_msg 1 2147483648)])
       = [\<lparr>click_row = ROW_W, time_ms = 2147483648, delta_ms = - 2147483648\<rparr>]
   \<and> max 0 (2147483648 - 0) = (2147483648 :: int)"
  by (simp add: run_defs)

section \<open>Key release\<close>

text \<open>
  C3, as claimed: a release on a mapped row with no open segment leaves the whole state
  unchanged. On a fresh source the release of W changes the state (the counter of key
  events).
\<close>

theorem release_changes_counter:
  "dz_wndproc (dz_run dz_source_defaults []) (key_msg 1 87 5) \<noteq> dz_run dz_source_defaults []"
proof
  assume "dz_wndproc (dz_run dz_source_defaults []) (key_msg 1 87 5) = dz_run dz_source_defaults []"
  then have "key_events (st (dz_wndproc (dz_run dz_source_defaults []) (key_msg 1 87 5)))
      = key_events (st (dz_run dz_source_defaults []))"
    by simp
  then show False by (simp add: run_defs)
qed

text \<open>
  C3, amended. For every accepted release message of a key mapped to a row: the newest
  open segment of the row gets the release time as its end and every other segment stays
  as it was; with no open segment of the row the segment list is unchanged. In both cases
  the row's down flag is cleared, the counter of key events is incremented, and nothing
  else (clicks, cursor, settings, other flags and counters) changes.
\<close>

theorem release_closes_latest_open:
  assumes "accepted m" and "raw m = RIM_TYPEKEYBOARD flags vkey"
    and "flags AND RI_KEY_BREAK \<noteq> 0" and "vkey_to_row d vkey = row" and "row \<noteq> -1"
  shows "\<exists>segs'. dz_wndproc d m =
            d\<lparr>st := (st d)\<lparr>key_down := (key_down (st d))(row := 0),
                            key_events := key_events (st d) + 1\<rparr>,
              segments := segs'\<rparr>
     \<and> ((\<exists>s\<in>set (segments d). open_for row s) \<longrightarrow>
          (\<exists>older s newer. segments d = older @ s # newer \<and> open_for row s
              \<and> (\<forall>x\<in>set newer. \<not> open_for row x)
              \<and> segs' = older @ s\<lparr>end_ms := clock m\<rparr> # newer))
     \<and> ((\<forall>s\<in>set (segments d). \<not> open_for row s) \<longrightarrow> segs' = segments d)"
proof -
  let ?segs = "close_latest row (clock m) (segments d)"
  have eq: "dz_wndproc d m =
      d\<lparr>st := (st d)\<lparr>key_down := (key_down (st d))(row := 0),
                      key_events := key_events (st d) + 1\<rparr>,
        segments := ?segs\<rparr>"
    using assms
    by (simp add: wndproc_accepted wndproc_keyboard_release key_release_def set_key_down_def
          count_key_event_def)
  have some: "(\<exists>s\<in>set (segments d). open_for row s) \<longrightarrow>
          (\<exists>older s newer. segments d = older @ s # newer \<and> open_for row s
              \<and> (\<forall>x\<in>set newer. \<not> open_for row x)
              \<and> ?segs = older @ s\<lparr>end_ms := clock m\<rparr> # newer)"
    using close_latest_some [of "segments d" row "clock m"] by blast
  have none: "(\<forall>s\<in>set (segments d). \<not> open_for row s) \<longrightarrow> ?segs = segments d"
    by (simp add: close_latest_none)
  from eq some none show ?thesis by blast
qed

theorem release_closes_latest_open_witness:
  "accepted (key_msg 1 87 200) \<and> raw (key_msg 1 87 200) = RIM_TYPEKEYBOARD 1 87
   \<and> (1 :: 16 word) AND RI_KEY_BREAK \<noteq> 0
   \<and> vkey_to_row (dz_run dz_source_defaults [Input (key_msg 0 87 10)]) 87 = ROW_W
   \<and> segments (dz_run dz_source_defaults [Input (key_msg 0 87 10)])
       = [\<lparr>seg_row = ROW_W, start_ms = 10, end_ms = -1\<rparr>]
   \<and> (\<exists>segs'. dz_wndproc (dz_run dz_source_defaults [Input (key_msg 0 87 10)]) (key_msg 1 87 200) =
          (dz_run dz_source_defaults [Input (key_msg 0 87 10)])
            \<lparr>st := (st (dz_run dz_source_defaults [Input (key_msg 0 87 10)]))
                \<lparr>key_down := (key_down (st (dz_run dz_source_defaults [Input (key_msg 0 87 10)])))
                                (ROW_W := 0),
                  key_events := key_events (st (dz_run dz_source_defaults [Input (key_msg 0 87 10)])) + 1\<rparr>,
              segments := segs'\<rparr>
        \<and> segs' = [\<lparr>seg_row = ROW_W, start_ms = 10, end_ms = 200\<rparr>])"
proof -
  let ?d = "dz_run dz_source_defaults [Input (key_msg 0 87 10)]"
  have h1: "accepted (key_msg 1 87 200)"
    by (simp add: accepted_def key_msg_def)
  have h2: "raw (key_msg 1 87 200) = RIM_TYPEKEYBOARD 1 87"
    by (simp add: key_msg_def)
  have h3: "(1 :: 16 word) AND RI_KEY_BREAK \<noteq> 0"
    by simp
  have h4: "vkey_to_row ?d 87 = ROW_W"
    by (simp add: run_defs)
  have h5: "ROW_W \<noteq> -1"
    by simp
  have segs: "segments ?d = [\<lparr>seg_row = ROW_W, start_ms = 10, end_ms = -1\<rparr>]"
    by (simp add: run_defs)
  have t: "clock (key_msg 1 87 200) = 200"
    by (simp add: key_msg_def)
  from release_closes_latest_open [OF h1 h2 h3 h4 h5]
  obtain segs' where
    eq: "dz_wndproc ?d (key_msg 1 87 200) =
          ?d\<lparr>st := (st ?d)\<lparr>key_down := (key_down (st ?d))(ROW_W := 0),
                             key_events := key_events (st ?d) + 1\<rparr>,
              segments := segs'\<rparr>"
    and some: "(\<exists>s\<in>set (segments ?d). open_for ROW_W s) \<longrightarrow>
          (\<exists>older s newer. segments ?d = older @ s # newer \<and> open_for ROW_W s
              \<and> (\<forall>x\<in>set newer. \<not> open_for ROW_W x)
              \<and> segs' = older @ s\<lparr>end_ms := clock (key_msg 1 87 200)\<rparr> # newer)"
    by blast
  have "\<exists>s\<in>set (segments ?d). open_for ROW_W s"
    by (simp add: segs open_for_def)
  with some obtain older s newer where
    split: "segments ?d = older @ s # newer"
    and s': "segs' = older @ s\<lparr>end_ms := clock (key_msg 1 87 200)\<rparr> # newer"
    by blast
  from split segs have "older = [] \<and> newer = [] \<and> s = \<lparr>seg_row = ROW_W, start_ms = 10, end_ms = -1\<rparr>"
    by (simp add: append_eq_Cons_conv Cons_eq_append_conv)
  with s' t have "segs' = [\<lparr>seg_row = ROW_W, start_ms = 10, end_ms = 200\<rparr>]"
    by simp
  with eq h1 h2 h3 h4 segs show ?thesis
    by blast
qed

section \<open>Settings update\<close>

text \<open>
  C10. For every settings update, the four per-row down flags are reset to 0, and the
  segment history (open segments stay open), the click history and the cursor are left as
  they were.
\<close>

theorem update_resets_flags_only:
  "key_down (st (dz_source_update d settings)) ROW_W = 0
   \<and> key_down (st (dz_source_update d settings)) ROW_S = 0
   \<and> key_down (st (dz_source_update d settings)) ROW_A = 0
   \<and> key_down (st (dz_source_update d settings)) ROW_D = 0
   \<and> segments (dz_source_update d settings) = segments d
   \<and> clicks (dz_source_update d settings) = clicks d
   \<and> last_key_row (dz_source_update d settings) = last_key_row d
   \<and> last_key_down_ms (dz_source_update d settings) = last_key_down_ms d
   \<and> last_key_valid (dz_source_update d settings) = last_key_valid d"
  by (simp add: dz_source_update_def all_rows_def)

section \<open>Repeated presses\<close>









section \<open>History cleanup\<close>


lemma drop_old_segments_dropWhile:
  "drop_old_segments now ka ss = dropWhile (seg_expired now ka) ss"
  by (induction ss) (auto simp: Let_def seg_expired_def)




lemma open_survives_dropWhile:
  "x \<in> set ss \<Longrightarrow> end_ms x < 0 \<Longrightarrow> x \<in> set (dropWhile (seg_expired now (now - 30000)) ss)"
  by (induction ss) (auto simp: seg_expired_def)







section \<open>At most one open segment per row\<close>

lemma filter_scan_close_le:
  "length (filter (open_for r) (scan_close row t xs)) \<le> length (filter (open_for r) xs)"
  by (induction xs) (auto simp: open_for_def)

lemma filter_close_latest_le:
  "length (filter (open_for r) (close_latest row t segs)) \<le> length (filter (open_for r) segs)"
  using filter_scan_close_le [of r row t "rev segs"]
  by (simp add: close_latest_def rev_filter [symmetric])

lemma filter_dropWhile_le:
  "length (filter P (dropWhile Q xs)) \<le> length (filter P xs)"
  by (induction xs) auto

lemma no_open_filter: "\<not> has_open row segs \<Longrightarrow> filter (open_for row) segs = []"
  by (auto simp: has_open_iff filter_empty_conv)

lemma key_press_one_open:
  assumes "one_open_per_row d"
  shows "one_open_per_row (key_press was_down row t d)"
proof (cases "\<not> was_down \<and> \<not> has_open row (segments d)")
  case True
  then have seg: "segments (key_press was_down row t d) =
      segments d @ [\<lparr>seg_row = row, start_ms = t, end_ms = -1\<rparr>]"
    by (simp add: key_press_def start_segment_def)
  show ?thesis
    unfolding one_open_per_row_def
  proof
    fix r
    show "length (filter (open_for r) (segments (key_press was_down row t d))) \<le> 1"
    proof (cases "r = row")
      case True
      with \<open>\<not> was_down \<and> \<not> has_open row (segments d)\<close> show ?thesis
        unfolding seg by (simp add: no_open_filter)
    next
      case False
      with assms show ?thesis
        unfolding seg by (simp add: one_open_per_row_def open_for_def)
    qed
  qed
next
  case False
  then have "key_press was_down row t d = d"
    by (auto simp: key_press_def)
  with assms show ?thesis by simp
qed

lemma key_release_one_open:
  assumes "one_open_per_row d"
  shows "one_open_per_row (key_release row t d)"
  unfolding one_open_per_row_def
proof
  fix r
  have "length (filter (open_for r) (segments (key_release row t d)))
      \<le> length (filter (open_for r) (segments d))"
    by (simp add: key_release_def filter_close_latest_le)
  also have "\<dots> \<le> 1"
    using assms by (simp add: one_open_per_row_def)
  finally show "length (filter (open_for r) (segments (key_release row t d))) \<le> 1" .
qed

lemma one_open_same_segments:
  "one_open_per_row d \<Longrightarrow> segments d' = segments d \<Longrightarrow> one_open_per_row d'"
  by (simp add: one_open_per_row_def)

lemma wndproc_keyboard_one_open:
  assumes "one_open_per_row d"
  shows "one_open_per_row (wndproc_keyboard d flags vkey t)"
proof -
  let ?row = "vkey_to_row d vkey"
  show ?thesis
  proof (cases "?row = -1")
    case True
    then show ?thesis
      by (simp add: wndproc_keyboard_unmapped one_open_same_segments [OF assms])
  next
    case False
    have base: "\<And>v. one_open_per_row (set_key_down ?row v d)"
      by (rule one_open_same_segments [OF assms]) simp
    show ?thesis
    proof (cases "flags AND RI_KEY_BREAK = 0")
      case True
      have "one_open_per_row (key_press (key_down (st d) ?row \<noteq> 0) ?row t (set_key_down ?row 1 d))"
        by (rule key_press_one_open [OF base])
      then have "one_open_per_row (count_key_event
          (key_press (key_down (st d) ?row \<noteq> 0) ?row t (set_key_down ?row 1 d)))"
        by (rule one_open_same_segments) simp
      then show ?thesis
        using False True by (simp add: wndproc_keyboard_press [OF refl])
    next
      case brk: False
      have "one_open_per_row (key_release ?row t (set_key_down ?row 0 d))"
        by (rule key_release_one_open [OF base])
      then have "one_open_per_row (count_key_event (key_release ?row t (set_key_down ?row 0 d)))"
        by (rule one_open_same_segments) simp
      then show ?thesis
        using False brk by (simp add: wndproc_keyboard_release [OF refl])
    qed
  qed
qed

lemma wndproc_one_open:
  assumes "one_open_per_row d"
  shows "one_open_per_row (dz_wndproc d m)"
proof (cases "accepted m")
  case True
  show ?thesis
  proof (cases "raw m")
    case (RIM_TYPEMOUSE x y bf)
    have "one_open_per_row (wndproc_mouse d x y bf (clock m))"
      by (rule one_open_same_segments [OF assms]) simp
    with True RIM_TYPEMOUSE show ?thesis
      by (simp add: wndproc_accepted)
  next
    case (RIM_TYPEKEYBOARD flags vkey)
    with True wndproc_keyboard_one_open [OF assms] show ?thesis
      by (simp add: wndproc_accepted)
  next
    case RIM_TYPEHID
    with True assms show ?thesis
      by (simp add: wndproc_accepted)
  qed
next
  case False
  with assms show ?thesis by (simp add: wndproc_rejected)
qed

lemma cleanup_segments:
  "segments (dz_cleanup_history d now) = dropWhile (seg_expired now (now - 30000)) (segments d)"
  by (simp add: dz_cleanup_history_def Let_def drop_old_segments_dropWhile)

lemma render_segments:
  "segments (dz_source_render d solid now) =
     (if solid then dropWhile (seg_expired now (now - 30000)) (segments d) else segments d)"
  by (simp add: dz_source_render_def cleanup_segments)

lemma render_one_open:
  assumes "one_open_per_row d"
  shows "one_open_per_row (dz_source_render d solid now)"
  unfolding one_open_per_row_def
proof
  fix r
  have "length (filter (open_for r) (segments (dz_source_render d solid now)))
      \<le> length (filter (open_for r) (segments d))"
    by (simp add: render_segments filter_dropWhile_le)
  also have "\<dots> \<le> 1"
    using assms by (simp add: one_open_per_row_def)
  finally show "length (filter (open_for r) (segments (dz_source_render d solid now))) \<le> 1" .
qed

lemma update_segments [simp]: "segments (dz_source_update d settings) = segments d"
  by (simp add: dz_source_update_def all_rows_def)

lemma update_one_open:
  "one_open_per_row d \<Longrightarrow> one_open_per_row (dz_source_update d settings)"
  by (erule one_open_same_segments) simp

lemma step_one_open:
  "one_open_per_row d \<Longrightarrow> one_open_per_row (dz_step d c)"
  by (cases c) (simp_all add: wndproc_one_open render_one_open update_one_open)

lemma foldl_one_open:
  "one_open_per_row d \<Longrightarrow> one_open_per_row (foldl dz_step d calls)"
  by (induction calls arbitrary: d) (simp_all add: step_one_open)

lemma create_one_open: "one_open_per_row (dz_source_create settings)"
  by (simp add: one_open_per_row_def dz_source_create_def new_source_data_def)

text \<open>
  C5. In every state a source reaches from its creation (with any settings) through raw
  input messages (presses, releases, clicks and every other message), render passes with
  their history cleanup, and settings updates, each row has at most one segment whose end
  is the open sentinel.
\<close>

theorem at_most_one_open_segment_per_row:
  "one_open_per_row (dz_run settings calls)
   \<and> length (filter (open_for row) (segments (dz_run settings calls))) \<le> 1"
proof -
  have "one_open_per_row (dz_run settings calls)"
    unfolding dz_run_def by (rule foldl_one_open [OF create_one_open])
  then show ?thesis by (simp add: one_open_per_row_def)
qed

section \<open>The press condition of the three copies\<close>

text \<open>
  The plugin and its English copy start a segment when \<open>!already && !has_open\<close>, with
  \<open>already\<close> the row's down flag as it was before the message; the backup copy when
  \<open>!has_open\<close>. In every reachable state a row whose flag is down has an open segment.
\<close>

lemma scan_close_other_row:
  "r \<noteq> row \<Longrightarrow> filter (open_for r) (scan_close row t xs) = filter (open_for r) xs"
  by (induction xs) (auto simp: open_for_def)

lemma close_latest_other_row:
  assumes "r \<noteq> row"
  shows "has_open r (close_latest row t segs) = has_open r segs"
proof -
  have "filter (open_for r) (close_latest row t segs) = filter (open_for r) segs"
    using scan_close_other_row [OF assms, of t "rev segs"]
    by (simp add: close_latest_def rev_filter [symmetric])
  then have "set (filter (open_for r) (close_latest row t segs)) = set (filter (open_for r) segs)"
    by simp
  then show ?thesis
    by (auto simp: has_open_iff)
qed

lemma flags_same:
  "flags_have_open d \<Longrightarrow> segments d' = segments d \<Longrightarrow> key_down (st d') = key_down (st d)
     \<Longrightarrow> flags_have_open d'"
  by (simp add: flags_have_open_def)

lemma key_press_flags:
  assumes "flags_have_open d"
  shows "flags_have_open (key_press (key_down (st d) row \<noteq> 0) row t (set_key_down row 1 d))"
proof (cases "\<not> key_down (st d) row \<noteq> 0 \<and> \<not> has_open row (segments d)")
  case True
  then have eq: "key_press (key_down (st d) row \<noteq> 0) row t (set_key_down row 1 d) =
      start_segment row t (set_key_down row 1 d)"
    by (simp add: key_press_def)
  show ?thesis
    unfolding eq flags_have_open_def
  proof (intro allI impI)
    fix r
    assume f: "key_down (st (start_segment row t (set_key_down row 1 d))) r \<noteq> 0"
    show "has_open r (segments (start_segment row t (set_key_down row 1 d)))"
    proof (cases "r = row")
      case True
      then show ?thesis
        by (simp add: start_segment_def has_open_iff open_for_def)
    next
      case False
      with f have "key_down (st d) r \<noteq> 0"
        by (simp add: start_segment_def)
      with assms have "has_open r (segments d)"
        by (simp add: flags_have_open_def)
      then show ?thesis
        by (auto simp: start_segment_def has_open_iff)
    qed
  qed
next
  case False
  then have eq: "key_press (key_down (st d) row \<noteq> 0) row t (set_key_down row 1 d) =
      set_key_down row 1 d"
    by (auto simp: key_press_def)
  from False assms have open_row: "has_open row (segments d)"
    by (auto simp: flags_have_open_def)
  show ?thesis
    unfolding eq flags_have_open_def
  proof (intro allI impI)
    fix r
    assume f: "key_down (st (set_key_down row 1 d)) r \<noteq> 0"
    show "has_open r (segments (set_key_down row 1 d))"
    proof (cases "r = row")
      case True
      with open_row show ?thesis by simp
    next
      case False
      with f have "key_down (st d) r \<noteq> 0" by simp
      with assms show ?thesis by (simp add: flags_have_open_def)
    qed
  qed
qed

lemma key_release_flags:
  assumes "flags_have_open d"
  shows "flags_have_open (key_release row t (set_key_down row 0 d))"
  unfolding flags_have_open_def
proof (intro allI impI)
  fix r
  assume f: "key_down (st (key_release row t (set_key_down row 0 d))) r \<noteq> 0"
  then have ne: "r \<noteq> row" and "key_down (st d) r \<noteq> 0"
    by (auto simp: key_release_def split: if_splits)
  with assms have "has_open r (segments d)"
    by (simp add: flags_have_open_def)
  with ne show "has_open r (segments (key_release row t (set_key_down row 0 d)))"
    by (simp add: key_release_def close_latest_other_row)
qed

lemma wndproc_keyboard_flags:
  assumes "flags_have_open d"
  shows "flags_have_open (wndproc_keyboard d flags vkey t)"
proof -
  let ?row = "vkey_to_row d vkey"
  show ?thesis
  proof (cases "?row = -1")
    case True
    then show ?thesis
      by (simp add: wndproc_keyboard_unmapped flags_same [OF assms])
  next
    case False
    show ?thesis
    proof (cases "flags AND RI_KEY_BREAK = 0")
      case True
      have "flags_have_open (count_key_event
          (key_press (key_down (st d) ?row \<noteq> 0) ?row t (set_key_down ?row 1 d)))"
        by (rule flags_same [OF key_press_flags [OF assms]]) simp_all
      then show ?thesis
        using False True by (simp add: wndproc_keyboard_press [OF refl])
    next
      case brk: False
      have "flags_have_open (count_key_event (key_release ?row t (set_key_down ?row 0 d)))"
        by (rule flags_same [OF key_release_flags [OF assms]]) simp_all
      then show ?thesis
        using False brk by (simp add: wndproc_keyboard_release [OF refl])
    qed
  qed
qed

lemma wndproc_flags:
  assumes "flags_have_open d"
  shows "flags_have_open (dz_wndproc d m)"
proof (cases "accepted m")
  case True
  show ?thesis
  proof (cases "raw m")
    case (RIM_TYPEMOUSE x y bf)
    have "flags_have_open (wndproc_mouse d x y bf (clock m))"
      by (rule flags_same [OF assms]) simp_all
    with True RIM_TYPEMOUSE show ?thesis
      by (simp add: wndproc_accepted)
  next
    case (RIM_TYPEKEYBOARD flags vkey)
    with True wndproc_keyboard_flags [OF assms] show ?thesis
      by (simp add: wndproc_accepted)
  next
    case RIM_TYPEHID
    with True assms show ?thesis
      by (simp add: wndproc_accepted)
  qed
next
  case False
  with assms show ?thesis by (simp add: wndproc_rejected)
qed

lemma render_key_down [simp]:
  "key_down (st (dz_source_render d solid now)) = key_down (st d)"
  by (simp add: dz_source_render_def dz_cleanup_history_def Let_def)

lemma render_flags:
  assumes "flags_have_open d"
  shows "flags_have_open (dz_source_render d solid now)"
  unfolding flags_have_open_def
proof (intro allI impI)
  fix r
  assume "key_down (st (dz_source_render d solid now)) r \<noteq> 0"
  with assms have "has_open r (segments d)"
    by (simp add: flags_have_open_def)
  then obtain s where "s \<in> set (segments d)" "open_for r s"
    by (auto simp: has_open_iff)
  then have "s \<in> set (dropWhile (seg_expired now (now - 30000)) (segments d))" "open_for r s"
    by (simp_all add: open_survives_dropWhile open_for_def)
  then show "has_open r (segments (dz_source_render d solid now))"
    using \<open>s \<in> set (segments d)\<close>
    by (auto simp: render_segments has_open_iff)
qed

lemma update_key_down:
  "key_down (st (dz_source_update d settings)) =
     (key_down (st d))(ROW_W := 0, ROW_S := 0, ROW_A := 0, ROW_D := 0)"
  by (simp add: dz_source_update_def all_rows_def)

lemma update_flags:
  assumes "flags_have_open d"
  shows "flags_have_open (dz_source_update d settings)"
  unfolding flags_have_open_def
proof (intro allI impI)
  fix r
  assume "key_down (st (dz_source_update d settings)) r \<noteq> 0"
  then have "key_down (st d) r \<noteq> 0"
    by (simp add: update_key_down split: if_splits)
  with assms show "has_open r (segments (dz_source_update d settings))"
    by (simp add: flags_have_open_def)
qed

lemma step_flags: "flags_have_open d \<Longrightarrow> flags_have_open (dz_step d c)"
  by (cases c) (simp_all add: wndproc_flags render_flags update_flags)

lemma foldl_flags: "flags_have_open d \<Longrightarrow> flags_have_open (foldl dz_step d calls)"
  by (induction calls arbitrary: d) (simp_all add: step_flags)

lemma create_flags: "flags_have_open (dz_source_create settings)"
  by (simp add: flags_have_open_def dz_source_create_def new_source_data_def new_input_state_def)

lemma run_flags: "flags_have_open (dz_run settings calls)"
  unfolding dz_run_def by (rule foldl_flags [OF create_flags])

lemma key_press_backup_eq:
  assumes "flags_have_open d"
  shows "key_press (key_down (st d) row \<noteq> 0) row t (set_key_down row 1 d)
     = key_press_backup row t (set_key_down row 1 d)"
proof -
  from assms have "key_down (st d) row \<noteq> 0 \<longrightarrow> has_open row (segments d)"
    by (simp add: flags_have_open_def)
  then show ?thesis
    by (auto simp: key_press_def key_press_backup_def)
qed

lemma set_key_backup_eq:
  "vkey_to_row_backup vkey \<noteq> -1 \<Longrightarrow>
     set_key_backup vkey v d = set_key_down (vkey_to_row_backup vkey) v d"
  by (auto simp: vkey_to_row_backup_def set_key_backup_def split: if_splits)

lemma set_key_backup_unmapped:
  "vkey_to_row_backup vkey = -1 \<Longrightarrow> set_key_backup vkey v d = d"
  by (auto simp: vkey_to_row_backup_def set_key_backup_def split: if_splits)

lemma backup_handler_agrees:
  assumes inv: "flags_have_open d"
    and map: "\<forall>v. vkey_to_row d v = vkey_to_row_backup v"
  shows "wndproc_keyboard d flags vkey t = wndproc_keyboard_backup d flags vkey t"
proof (cases "vkey_to_row_backup vkey = -1")
  case True
  with map have "vkey_to_row d vkey = -1" by simp
  with True show ?thesis
    by (simp add: wndproc_keyboard_unmapped wndproc_keyboard_backup_def set_key_backup_unmapped Let_def)
next
  case False
  let ?row = "vkey_to_row_backup vkey"
  from map have row: "vkey_to_row d vkey = ?row" by simp
  show ?thesis
  proof (cases "flags AND RI_KEY_BREAK = 0")
    case True
    with False show ?thesis
      by (simp add: wndproc_keyboard_press [OF row] wndproc_keyboard_backup_def
            set_key_backup_eq key_press_backup_eq [OF inv] Let_def)
  next
    case brk: False
    with False show ?thesis
      by (simp add: wndproc_keyboard_release [OF row] wndproc_keyboard_backup_def
            set_key_backup_eq Let_def)
  qed
qed

lemma default_mapping:
  "vkey_to_row (dz_run dz_source_defaults [Input (key_msg 0 87 10)]) v = vkey_to_row_backup v"
proof -
  have "row_key_vkey (dz_run dz_source_defaults [Input (key_msg 0 87 10)])
      = row_key_vkey (dz_source_create dz_source_defaults)"
    by (simp add: dz_run_def)
  then have "vkey_to_row (dz_run dz_source_defaults [Input (key_msg 0 87 10)]) v
      = vkey_to_row (dz_source_create dz_source_defaults) v"
    by (rule vkey_to_row_cong)
  also have "\<dots> = vkey_to_row_backup v"
    by (simp add: vkey_to_row_def all_rows_def vkey_to_row_backup_def dz_source_create_def
          read_settings_def dz_source_defaults_def dz_obter_vkey_def to_int_def Let_def)
  finally show ?thesis .
qed

text \<open>
  C8. In every state a source reaches from its creation through raw input messages,
  render passes and settings updates, and for every row, the condition of the plugin and
  of its English copy (flag not down before, and no open segment) has the same truth
  value as the condition of the backup copy (no open segment), and the two press blocks
  give the same state. Where the configured keys are the backup copy's fixed W, S, A, D,
  the whole keyboard branches of the copies agree on every key message.
\<close>

theorem press_condition_same_as_backup:
  "(\<not> (key_down (st (dz_run settings calls)) row \<noteq> 0)
      \<and> \<not> has_open row (segments (dz_run settings calls)))
     = (\<not> has_open row (segments (dz_run settings calls)))
   \<and> key_press (key_down (st (dz_run settings calls)) row \<noteq> 0) row t
        (set_key_down row 1 (dz_run settings calls))
     = key_press_backup row t (set_key_down row 1 (dz_run settings calls))
   \<and> ((\<forall>v. vkey_to_row (dz_run settings calls) v = vkey_to_row_backup v) \<longrightarrow>
        wndproc_keyboard (dz_run settings calls) flags vkey t
          = wndproc_keyboard_backup (dz_run settings calls) flags vkey t)"
proof -
  let ?d = "dz_run settings calls"
  have inv: "flags_have_open ?d"
    by (rule run_flags)
  then have "key_down (st ?d) row \<noteq> 0 \<longrightarrow> has_open row (segments ?d)"
    by (simp add: flags_have_open_def)
  then have 1: "(\<not> (key_down (st ?d) row \<noteq> 0) \<and> \<not> has_open row (segments ?d))
     = (\<not> has_open row (segments ?d))"
    by blast
  note 2 = key_press_backup_eq [OF inv, of row t]
  have 3: "(\<forall>v. vkey_to_row ?d v = vkey_to_row_backup v) \<longrightarrow>
        wndproc_keyboard ?d flags vkey t = wndproc_keyboard_backup ?d flags vkey t"
    using backup_handler_agrees [OF inv] by blast
  from 1 2 3 show ?thesis by blast
qed

theorem press_condition_same_as_backup_witness:
  "(\<forall>v. vkey_to_row (dz_run dz_source_defaults [Input (key_msg 0 87 10)]) v = vkey_to_row_backup v)
   \<and> wndproc_keyboard (dz_run dz_source_defaults [Input (key_msg 0 87 10)]) 0 87 40
       = wndproc_keyboard_backup (dz_run dz_source_defaults [Input (key_msg 0 87 10)]) 0 87 40
   \<and> segments (wndproc_keyboard_backup (dz_run dz_source_defaults [Input (key_msg 0 87 10)]) 0 87 40)
       = [\<lparr>seg_row = ROW_W, start_ms = 10, end_ms = -1\<rparr>]
   \<and> wndproc_keyboard (dz_run dz_source_defaults [Input (key_msg 0 87 10)]) 0 83 40
       = wndproc_keyboard_backup (dz_run dz_source_defaults [Input (key_msg 0 87 10)]) 0 83 40
   \<and> segments (wndproc_keyboard_backup (dz_run dz_source_defaults [Input (key_msg 0 87 10)]) 0 83 40)
       = [\<lparr>seg_row = ROW_W, start_ms = 10, end_ms = -1\<rparr>,
          \<lparr>seg_row = ROW_S, start_ms = 40, end_ms = -1\<rparr>]"
proof -
  let ?d = "dz_run dz_source_defaults [Input (key_msg 0 87 10)]"
  have map: "\<forall>v. vkey_to_row ?d v = vkey_to_row_backup v"
    by (simp add: default_mapping)
  from press_condition_same_as_backup [of dz_source_defaults "[Input (key_msg 0 87 10)]"] map
  have eq: "wndproc_keyboard ?d flags vkey 40 = wndproc_keyboard_backup ?d flags vkey 40"
    for flags vkey
    by blast
  have segs: "segments ?d = [\<lparr>seg_row = ROW_W, start_ms = 10, end_ms = -1\<rparr>]"
    by (simp add: run_defs)
  have w: "segments (wndproc_keyboard_backup ?d 0 87 40)
       = [\<lparr>seg_row = ROW_W, start_ms = 10, end_ms = -1\<rparr>]"
    by (simp add: wndproc_keyboard_backup_def vkey_to_row_backup_def set_key_backup_def
          key_press_backup_def has_open_def segs Let_def)
  have s: "segments (wndproc_keyboard_backup ?d 0 83 40)
       = [\<lparr>seg_row = ROW_W, start_ms = 10, end_ms = -1\<rparr>,
          \<lparr>seg_row = ROW_S, start_ms = 40, end_ms = -1\<rparr>]"
    by (simp add: wndproc_keyboard_backup_def vkey_to_row_backup_def set_key_backup_def
          key_press_backup_def has_open_def start_segment_def segs Let_def)
  from map eq [of 0 87] eq [of 0 83] w s show ?thesis by blast
qed

section \<open>The window mapper\<close>




end
